theory Spec2Isabelle
  imports Main "HOL-Library.List_Lexorder" "HOL-Library.Multiset"
begin

section \<open>Python strings\<close>

text \<open>
  A Python \<open>str\<close> is a sequence of Unicode code points, and \<open>len\<close> counts code
  points.  A character is therefore modelled by its code point, a natural number, and a
  string by the list of its code points.
\<close>

type_synonym pychar = nat
type_synonym pystr = "pychar list"

definition COMMA :: pychar where "COMMA = 44"
definition HASH :: pychar where "HASH = 35"

text \<open>
  \<open>str.strip()\<close> without an argument removes leading and trailing whitespace, which for
  \<open>str\<close> is the set of code points for which \<open>str.isspace\<close> holds.
\<close>

definition py_isspace :: "pychar \<Rightarrow> bool" where
  "py_isspace c \<longleftrightarrow>
     (9 \<le> c \<and> c \<le> 13) \<or> (28 \<le> c \<and> c \<le> 32) \<or> c = 133 \<or> c = 160 \<or> c = 5760 \<or>
     (8192 \<le> c \<and> c \<le> 8202) \<or> c = 8232 \<or> c = 8233 \<or> c = 8239 \<or> c = 8287 \<or> c = 12288"

definition strip_by :: "(pychar \<Rightarrow> bool) \<Rightarrow> pystr \<Rightarrow> pystr" where
  "strip_by P s = rev (dropWhile P (rev (dropWhile P s)))"

definition py_strip :: "pystr \<Rightarrow> pystr" where
  "py_strip s = strip_by py_isspace s"

text \<open>\<open>s.split(sep)\<close> for a one-character separator; the result is never empty.\<close>

fun py_split :: "pychar \<Rightarrow> pystr \<Rightarrow> pystr list" where
  "py_split sep [] = [[]]"
| "py_split sep (c # cs) =
     (if c = sep then [] # py_split sep cs
      else (case py_split sep cs of
              [] \<Rightarrow> [[c]]
            | w # ws \<Rightarrow> (c # w) # ws))"

section \<open>The two regular expressions of the response parser\<close>

text \<open>
  \<open>re.findall(r'#([^#]+)#', s)\<close>: scanning from the left, a match starts at a \<open>#\<close>
  that is followed by at least one character other than \<open>#\<close> and then by a \<open>#\<close>;
  the group is the run between the two.  The scan resumes after the closing \<open>#\<close>
  of a match, and one character further after a failed attempt.
\<close>

function findall_hashtags :: "pystr \<Rightarrow> pystr list" where
  "findall_hashtags [] = []"
| "findall_hashtags (c # cs) =
     (if c = HASH then
        (let inner = takeWhile (\<lambda>x. x \<noteq> HASH) cs;
             rest = dropWhile (\<lambda>x. x \<noteq> HASH) cs
         in if inner \<noteq> [] \<and> rest \<noteq> [] then inner # findall_hashtags (tl rest)
            else findall_hashtags cs)
      else findall_hashtags cs)"
  by pat_completeness auto
termination
proof (relation "measure length")
  fix c :: pychar and cs inner rest :: pystr
  assume "rest = dropWhile (\<lambda>x. x \<noteq> HASH) cs"
  then have "length (tl rest) \<le> length cs"
    using length_dropWhile_le [of "\<lambda>x. x \<noteq> HASH" cs] by simp
  then show "(tl rest, c # cs) \<in> measure length" by simp
qed simp_all

text \<open>
  \<open>re.sub(r'#[^#]*#', '', s)\<close>: every \<open>#\<close> that has a later \<open>#\<close> is removed together
  with everything up to and including the next \<open>#\<close>; all other characters are kept.
\<close>

function sub_hashtags :: "pystr \<Rightarrow> pystr" where
  "sub_hashtags [] = []"
| "sub_hashtags (c # cs) =
     (if c = HASH then
        (let rest = dropWhile (\<lambda>x. x \<noteq> HASH) cs
         in if rest \<noteq> [] then sub_hashtags (tl rest)
            else c # sub_hashtags cs)
      else c # sub_hashtags cs)"
  by pat_completeness auto
termination
proof (relation "measure length")
  fix c :: pychar and cs rest :: pystr
  assume "rest = dropWhile (\<lambda>x. x \<noteq> HASH) cs"
  then have "length (tl rest) \<le> length cs"
    using length_dropWhile_le [of "\<lambda>x. x \<noteq> HASH" cs] by simp
  then show "(tl rest, c # cs) \<in> measure length" by simp
qed simp_all

section \<open>Response parsing in \<open>TagProcessor.generate_tags\<close>\<close>

text \<open>
  The body of the first loop for one comma-separated part: the part is trimmed; an empty
  part gives nothing; a part with a \<open>#\<close> gives the \<open>findall\<close> matches first
  (\<open>raw_tags.extend(hashtag_matches)\<close>) and then the trimmed remainder if it is not
  empty (\<open>raw_tags.append(non_hashtag)\<close>); any other part gives itself.
\<close>

definition raw_tags_of_part :: "pystr \<Rightarrow> pystr list" where
  "raw_tags_of_part tag_part =
     (let tag_part = py_strip tag_part in
      if tag_part \<noteq> [] then
        (if HASH \<in> set tag_part then
           (let hashtag_matches = findall_hashtags tag_part;
                non_hashtag = py_strip (sub_hashtags tag_part)
            in hashtag_matches @ (if non_hashtag \<noteq> [] then [non_hashtag] else []))
         else [tag_part])
      else [])"

definition raw_tags_of :: "pystr \<Rightarrow> pystr list" where
  "raw_tags_of tags_text = concat (map raw_tags_of_part (py_split COMMA tags_text))"

text \<open>
  The argument of \<open>tag.strip(...)\<close> in the second loop is written as two adjacent string
  literals, \<open>'\<dots>""'\<close> and \<open>'\<dots>'\<close>, which Python concatenates: the set holds the
  full-width comma, full stop, exclamation mark, question mark, semicolon and colon, the
  ASCII double quote, and the full-width brackets \<open>( ) [ ] << >>\<close> in their CJK forms.
\<close>

definition PUNCT :: "pychar list" where
  "PUNCT = [65292, 12290, 65281, 65311, 65307, 65306, 34, 34,
            65288, 65289, 12304, 12305, 12298, 12299]"

definition is_punct :: "pychar \<Rightarrow> bool" where
  "is_punct c \<longleftrightarrow> c \<in> set PUNCT"

text \<open>The body of the second loop for one raw tag.\<close>

definition clean_tag :: "pystr \<Rightarrow> pystr list" where
  "clean_tag tag =
     (let tag = py_strip tag in
      if tag \<noteq> [] \<and> length tag \<ge> 2 then
        (let tag = strip_by is_punct tag in
         if tag \<noteq> [] \<and> length tag \<ge> 2 then [tag] else [])
      else [])"

definition filter_tags :: "pystr list \<Rightarrow> pystr list" where
  "filter_tags raw_tags = concat (map clean_tag raw_tags)"

definition parse_tags :: "pystr \<Rightarrow> pystr list" where
  "parse_tags tags_text = take 5 (filter_tags (raw_tags_of tags_text))"

section \<open>The tag generator\<close>

text \<open>
  The exceptions that can reach the handlers of \<open>generate_tags\<close>.  \<open>RateLimitError\<close> and
  \<open>AuthenticationError\<close> are subclasses of \<open>APIError\<close> in the client library;
  \<open>IndexError\<close> comes from \<open>response.choices[0]\<close> on an empty list,
  \<open>AttributeError\<close> from \<open>.strip()\<close> on a message whose content is \<open>None\<close>;
  \<open>UnknownError\<close> stands for every other subclass of \<open>Exception\<close>.
\<close>

datatype py_exception =
  APIError | RateLimitError | AuthenticationError | IndexError | AttributeError | UnknownError

definition is_APIError :: "py_exception \<Rightarrow> bool" where
  "is_APIError e \<longleftrightarrow> e = APIError \<or> e = RateLimitError \<or> e = AuthenticationError"

text \<open>
  What \<open>client.chat.completions.create\<close> does for a request: it raises, or it returns a
  response, of which the parser reads the message content of each choice (a string or
  \<open>None\<close>).
\<close>

datatype completion = Raises py_exception | Choices "pystr option list"

text \<open>
  JSON values as \<open>json.load\<close> returns them.  An object is the list of its fields in
  order; \<open>json.load\<close> gives a dictionary, so the keys of an object are taken to be
  distinct.  Numbers are integers here; what \<open>str()\<close> makes of any value that is not
  a string is left to the environment below.
\<close>

datatype json =
  JNull | JBool bool | JNum int | JStr pystr | JArr "json list" | JObj "(pystr \<times> json) list"

text \<open>
  An input file that can be opened and decoded: its text, and what \<open>json.load\<close> makes of
  it (\<open>None\<close> when the text is not JSON and \<open>json.load\<close> raises).
\<close>

datatype input_file = File pystr "json option"

text \<open>
  The world outside the script: the completion service, as a function of the user message
  sent to it; the input files by path (\<open>None\<close> for a path that cannot be opened or
  decoded); and the text Python's \<open>str()\<close> gives for a loaded JSON value that is not a
  string.  The input files are kept apart from the output directory, which is part of the
  state below.
\<close>

record env =
  service :: "pystr \<Rightarrow> completion"
  files :: "pystr \<Rightarrow> input_file option"
  str_of :: "json \<Rightarrow> pystr"

definition py_str :: "env \<Rightarrow> json \<Rightarrow> pystr" where
  "py_str e v = (case v of JStr s \<Rightarrow> s | _ \<Rightarrow> str_of e v)"

text \<open>
  The user message is a fixed label of eleven code points and two newlines followed by
  \<open>content[:3000]\<close>.
\<close>

definition USER_LABEL :: pystr where
  "USER_LABEL = [35831, 20026, 20197, 19979, 25991, 31456, 29983, 25104, 26631, 31614,
                 65306, 10, 10]"

definition user_message :: "pystr \<Rightarrow> pystr" where
  "user_message content = USER_LABEL @ take 3000 content"

text \<open>The body of the \<open>try\<close> block once the request is built: \<open>Inl\<close> is a raised exception.\<close>

definition read_response :: "completion \<Rightarrow> py_exception + pystr list" where
  "read_response r =
     (case r of
        Raises e \<Rightarrow> Inl e
      | Choices [] \<Rightarrow> Inl IndexError
      | Choices (None # _) \<Rightarrow> Inl AttributeError
      | Choices (Some text # _) \<Rightarrow> Inr (parse_tags (py_strip text)))"

text \<open>
  \<open>generate_tags\<close> takes the log of the requests sent so far and returns it extended by
  the request it sends, if any.  The \<open>except\<close> clauses are tried in the order of the
  source; each of them returns the empty list.
\<close>

definition generate_tags ::
  "env \<Rightarrow> pystr \<Rightarrow> pystr list \<Rightarrow> (py_exception + pystr list) \<times> pystr list" where
  "generate_tags e content reqs =
     (if content = [] then (Inr [], reqs)
      else
        (let msg = user_message content in
         (case read_response (service e msg) of
            Inr final_tags \<Rightarrow> Inr final_tags
          | Inl ex \<Rightarrow>
              (if is_APIError ex then Inr []
               else if ex = RateLimitError then Inr []
               else if ex = AuthenticationError then Inr []
               else Inr []),
          reqs @ [msg])))"

section \<open>Paths\<close>

definition SLASH :: pychar where "SLASH = 47"
definition DOT :: pychar where "DOT = 46"

text \<open>\<open>os.path.basename\<close> (POSIX): what follows the last slash.\<close>

definition basename :: "pystr \<Rightarrow> pystr" where
  "basename p = rev (takeWhile (\<lambda>c. c \<noteq> SLASH) (rev p))"

text \<open>
  \<open>Path(p).name\<close>: the last component of the path after empty components and \<open>.\<close>
  components are dropped, or the empty string.
\<close>

definition path_name :: "pystr \<Rightarrow> pystr" where
  "path_name p =
     (case filter (\<lambda>x. x \<noteq> [] \<and> x \<noteq> [DOT]) (py_split SLASH p) of
        [] \<Rightarrow> []
      | x # xs \<Rightarrow> last (x # xs))"

text \<open>
  \<open>Path(p).suffix\<close>: with \<open>i = name.rfind('.')\<close>, the suffix is \<open>name[i:]\<close> if
  \<open>0 < i < len(name) - 1\<close> and empty otherwise.  Here \<open>ext\<close> is the part of the name
  after its last dot, so \<open>i = len(name) - len(ext) - 1\<close>.
\<close>

definition path_suffix :: "pystr \<Rightarrow> pystr" where
  "path_suffix p =
     (let name = path_name p;
          ext = rev (takeWhile (\<lambda>c. c \<noteq> DOT) (rev name))
      in if DOT \<in> set name \<and> length ext + 1 < length name \<and> ext \<noteq> []
         then DOT # ext else [])"

text \<open>
  \<open>str.lower\<close> on the letters \<open>A\<close> to \<open>Z\<close>.  The suffix is only compared with
  \<open>.json\<close>, and no other code point has a lower-case form among the characters of
  \<open>.json\<close>.
\<close>

definition ascii_lower :: "pychar \<Rightarrow> pychar" where
  "ascii_lower c = (if 65 \<le> c \<and> c \<le> 90 then c + 32 else c)"

definition DOT_JSON :: pystr where "DOT_JSON = [46, 106, 115, 111, 110]"

definition is_json_file :: "pystr \<Rightarrow> bool" where
  "is_json_file p \<longleftrightarrow> map ascii_lower (path_suffix p) = DOT_JSON"

section \<open>The content extractor\<close>

text \<open>The field names \<open>content\<close>, \<open>text\<close>, \<open>body\<close>, \<open>description\<close>, in this order.\<close>

definition FIELDS :: "pystr list" where
  "FIELDS = [[99, 111, 110, 116, 101, 110, 116], [116, 101, 120, 116], [98, 111, 100, 121],
             [100, 101, 115, 99, 114, 105, 112, 116, 105, 111, 110]]"

text \<open>
  The field lookup that \<open>read_article\<close> and \<open>read_json_articles\<close> both spell out:
  \<open>content_field\<close> if it is given, not empty and a key of the object, else the first of
  \<open>FIELDS\<close> that is a key; \<open>None\<close> is the \<open>else\<close> branch of the \<open>for\<close> loop.
\<close>

fun first_field :: "env \<Rightarrow> (pystr \<times> json) list \<Rightarrow> pystr list \<Rightarrow> pystr option" where
  "first_field e obj [] = None"
| "first_field e obj (field # rest) =
     (case map_of obj field of
        Some v \<Rightarrow> Some (py_strip (py_str e v))
      | None \<Rightarrow> first_field e obj rest)"

definition find_content :: "env \<Rightarrow> pystr option \<Rightarrow> (pystr \<times> json) list \<Rightarrow> pystr option" where
  "find_content e content_field obj =
     (case content_field of
        None \<Rightarrow> first_field e obj FIELDS
      | Some cf \<Rightarrow>
          (if cf \<noteq> [] then
             (case map_of obj cf of
                Some v \<Rightarrow> Some (py_strip (py_str e v))
              | None \<Rightarrow> first_field e obj FIELDS)
           else first_field e obj FIELDS))"

text \<open>\<open>read_article\<close>; every exception inside it ends in \<open>return ""\<close>.\<close>

definition read_article :: "env \<Rightarrow> pystr \<Rightarrow> pystr option \<Rightarrow> pystr" where
  "read_article e file_path content_field =
     (if is_json_file file_path then
        (case files e file_path of
           None \<Rightarrow> []
         | Some (File text None) \<Rightarrow> []
         | Some (File text (Some (JObj obj))) \<Rightarrow>
             (case find_content e content_field obj of
                Some content \<Rightarrow> content
              | None \<Rightarrow> [])
         | Some (File text (Some _)) \<Rightarrow> [])
      else
        (case files e file_path of
           None \<Rightarrow> []
         | Some (File text _) \<Rightarrow> py_strip text))"

record article =
  index :: nat
  content :: pystr
  metadata :: "(pystr \<times> json) list"

text \<open>The loop of \<open>read_json_articles\<close> over \<open>enumerate(data)\<close>, from position \<open>i\<close>.\<close>

fun collect_articles :: "env \<Rightarrow> pystr option \<Rightarrow> nat \<Rightarrow> json list \<Rightarrow> article list" where
  "collect_articles e content_field i [] = []"
| "collect_articles e content_field i (JObj obj # items) =
     (case find_content e content_field obj of
        None \<Rightarrow> collect_articles e content_field (Suc i) items
      | Some c \<Rightarrow>
          (if c \<noteq> [] then
             \<lparr>index = i, content = c,
              metadata = filter (\<lambda>(k, v). Some k \<noteq> content_field) obj\<rparr>
               # collect_articles e content_field (Suc i) items
           else collect_articles e content_field (Suc i) items))"
| "collect_articles e content_field i (_ # items) =
     collect_articles e content_field (Suc i) items"

definition read_json_articles :: "env \<Rightarrow> pystr \<Rightarrow> pystr option \<Rightarrow> article list" where
  "read_json_articles e file_path content_field =
     (case files e file_path of
        None \<Rightarrow> []
      | Some (File text None) \<Rightarrow> []
      | Some (File text (Some (JArr items))) \<Rightarrow> collect_articles e content_field 0 items
      | Some (File text (Some _)) \<Rightarrow> [])"

section \<open>The aggregation store, the progress record and the documents on disk\<close>

text \<open>
  A \<open>Counter\<close> is a dictionary and keeps its keys in insertion order: it is modelled by
  an association list.  \<open>Counter.update(tags)\<close> adds one to the count of every element of
  \<open>tags\<close>, a new key going to the end.
\<close>

type_synonym counter = "(pystr \<times> int) list"

fun counter_incr :: "pystr \<Rightarrow> counter \<Rightarrow> counter" where
  "counter_incr t [] = [(t, 1)]"
| "counter_incr t ((k, n) # c) =
     (if k = t then (k, n + 1) # c else (k, n) # counter_incr t c)"

definition counter_update :: "counter \<Rightarrow> pystr list \<Rightarrow> counter" where
  "counter_update c tags = foldl (\<lambda>c t. counter_incr t c) c tags"

text \<open>
  \<open>Counter.most_common()\<close> is \<open>sorted(items, key=count, reverse=True)\<close>, a stable sort by
  descending count; \<open>most_common(10)\<close> gives its first ten entries.
\<close>

definition most_common :: "counter \<Rightarrow> counter" where
  "most_common c = sort_key (\<lambda>(t, n). - n) c"

text \<open>
  The three kinds of document the script writes.  The progress document stores
  \<open>list(set)\<close>, whose order Python leaves open and which is only ever read back through
  \<open>set(...)\<close>: its two lists are kept as sets.  Its \<open>last_update\<close> time stamp is never
  read and is left out.
\<close>

record stats =
  total_tags :: nat
  total_occurrences :: int
  tag_counts :: counter
  top_tags :: counter

record progress =
  saved_files :: "pystr set"
  saved_articles :: "pystr set"

datatype document = TagsDoc "pystr list" | StatsDoc stats | ProgressDoc progress

text \<open>
  A path of the output directory holds no file, a file that \<open>json.load\<close> cannot load, or
  one of the documents above.  (A JSON file of any other shape is not modelled.)
\<close>

datatype slot = Absent | Corrupt | Doc document

text \<open>
  The output directory: what each path holds, and the paths for which
  \<open>open(..., 'w')\<close> raises.
\<close>

record outputs =
  docs :: "pystr \<Rightarrow> slot"
  unwritable :: "pystr set"

text \<open>
  \<open>s.replace('.json', new)\<close>: every occurrence of \<open>.json\<close>, found from the left and
  without overlap, is replaced.
\<close>

function replace_dot_json :: "pystr \<Rightarrow> pystr \<Rightarrow> pystr" where
  "replace_dot_json new [] = []"
| "replace_dot_json new (c # cs) =
     (if take 5 (c # cs) = DOT_JSON then new @ replace_dot_json new (drop 4 cs)
      else c # replace_dot_json new cs)"
  by pat_completeness auto
termination
  by (relation "measure (\<lambda>(new, s). length s)") auto

text \<open>The suffixes \<open>_stats.json\<close> and \<open>_progress.json\<close>.\<close>

definition STATS_SUFFIX :: pystr where
  "STATS_SUFFIX = [95, 115, 116, 97, 116, 115, 46, 106, 115, 111, 110]"

definition PROGRESS_SUFFIX :: pystr where
  "PROGRESS_SUFFIX = [95, 112, 114, 111, 103, 114, 101, 115, 115, 46, 106, 115, 111, 110]"

definition stats_file_of :: "pystr \<Rightarrow> pystr" where
  "stats_file_of output_file = replace_dot_json STATS_SUFFIX output_file"

definition progress_file_of :: "pystr \<Rightarrow> pystr" where
  "progress_file_of output_file = replace_dot_json PROGRESS_SUFFIX output_file"

text \<open>
  The fields of \<open>TagProcessor\<close> (the client and the two locks apart), together with the
  output directory and the log of the requests sent to the service.
\<close>

record state =
  tag_pool :: "pystr set"
  tag_counter :: counter
  processed_files :: "pystr set"
  processed_articles :: "pystr set"
  disk :: outputs
  requests :: "pystr list"

text \<open>\<open>TagProcessor.__init__\<close>, started on a given output directory.\<close>

definition new_processor :: "outputs \<Rightarrow> state" where
  "new_processor d =
     \<lparr>tag_pool = {}, tag_counter = [], processed_files = {}, processed_articles = {},
      disk = d, requests = []\<rparr>"

text \<open>
  The statements under \<open>with self.tag_lock\<close> that change the store, the same in
  \<open>process_single_article\<close> and in \<open>process_single_file\<close>:
  \<open>tag_pool.update(tags); tag_counter.update(tags)\<close>.
\<close>

definition merge_tags :: "pystr list \<Rightarrow> state \<Rightarrow> state" where
  "merge_tags tags s =
     s\<lparr>tag_pool := tag_pool s \<union> set tags,
       tag_counter := counter_update (tag_counter s) tags\<rparr>"

text \<open>\<open>open(path, 'w')\<close> followed by \<open>json.dump\<close> of a document.\<close>

definition write_doc :: "pystr \<Rightarrow> document \<Rightarrow> state \<Rightarrow> state" where
  "write_doc path doc s = s\<lparr>disk := (disk s)\<lparr>docs := (docs (disk s))(path := Doc doc)\<rparr>\<rparr>"

definition stats_of :: "state \<Rightarrow> stats" where
  "stats_of s =
     \<lparr>total_tags = card (tag_pool s),
      total_occurrences = sum_list (map snd (tag_counter s)),
      tag_counts = most_common (tag_counter s),
      top_tags = take 10 (most_common (tag_counter s))\<rparr>"

text \<open>
  \<open>save_tags_incremental\<close>: the sorted tag list goes to \<open>output_file\<close>, then the
  statistics to the stats file; an exception ends the function where it is raised.
\<close>

definition save_tags_incremental :: "pystr \<Rightarrow> state \<Rightarrow> state" where
  "save_tags_incremental output_file s =
     (if output_file \<in> unwritable (disk s) then s
      else
        (let s1 = write_doc output_file (TagsDoc (sorted_list_of_set (tag_pool s))) s;
             stats_file = stats_file_of output_file
         in if stats_file \<in> unwritable (disk s1) then s1
            else write_doc stats_file (StatsDoc (stats_of s1)) s1))"

text \<open>\<open>save_tags\<close> writes the same two files in the same way.\<close>

definition save_tags :: "pystr \<Rightarrow> state \<Rightarrow> state" where
  "save_tags output_file s =
     (if output_file \<in> unwritable (disk s) then s
      else
        (let s1 = write_doc output_file (TagsDoc (sorted_list_of_set (tag_pool s))) s;
             stats_file = stats_file_of output_file
         in if stats_file \<in> unwritable (disk s1) then s1
            else write_doc stats_file (StatsDoc (stats_of s1)) s1))"

definition save_state :: "pystr \<Rightarrow> state \<Rightarrow> state" where
  "save_state output_file s =
     (let progress_file = progress_file_of output_file
      in if progress_file \<in> unwritable (disk s) then s
         else write_doc progress_file
                (ProgressDoc \<lparr>saved_files = processed_files s,
                              saved_articles = processed_articles s\<rparr>) s)"

text \<open>
  The keys of the stats and progress documents: \<open>total_tags\<close>, \<open>total_occurrences\<close>,
  \<open>tag_counts\<close>, \<open>top_tags\<close>, and \<open>processed_files\<close>, \<open>processed_articles\<close>,
  \<open>last_update\<close>.
\<close>

definition STATS_KEYS :: "pystr list" where
  "STATS_KEYS =
     [[116, 111, 116, 97, 108, 95, 116, 97, 103, 115],
      [116, 111, 116, 97, 108, 95, 111, 99, 99, 117, 114, 114, 101, 110, 99, 101, 115],
      [116, 97, 103, 95, 99, 111, 117, 110, 116, 115],
      [116, 111, 112, 95, 116, 97, 103, 115]]"

definition PROGRESS_KEYS :: "pystr list" where
  "PROGRESS_KEYS =
     [[112, 114, 111, 99, 101, 115, 115, 101, 100, 95, 102, 105, 108, 101, 115],
      [112, 114, 111, 99, 101, 115, 115, 101, 100, 95, 97, 114, 116, 105, 99, 108, 101, 115],
      [108, 97, 115, 116, 95, 117, 112, 100, 97, 116, 101]]"

text \<open>
  The three steps of \<open>load_state\<close>.  Each gives the state after the step, or \<open>None\<close> when
  the step raises.  \<open>set(x)\<close> of a dictionary is the set of its keys; \<open>.get\<close> on a
  dictionary without the key gives the default, and on a list it raises.
\<close>

definition load_tag_pool :: "pystr \<Rightarrow> state \<Rightarrow> state option" where
  "load_tag_pool output_file s =
     (case docs (disk s) output_file of
        Absent \<Rightarrow> Some s
      | Corrupt \<Rightarrow> None
      | Doc (TagsDoc tag_list) \<Rightarrow> Some (s\<lparr>tag_pool := set tag_list\<rparr>)
      | Doc (StatsDoc _) \<Rightarrow> Some (s\<lparr>tag_pool := set STATS_KEYS\<rparr>)
      | Doc (ProgressDoc _) \<Rightarrow> Some (s\<lparr>tag_pool := set PROGRESS_KEYS\<rparr>))"

definition load_tag_counter :: "pystr \<Rightarrow> state \<Rightarrow> state option" where
  "load_tag_counter output_file s =
     (case docs (disk s) (stats_file_of output_file) of
        Absent \<Rightarrow> Some s
      | Corrupt \<Rightarrow> None
      | Doc (StatsDoc stats_data) \<Rightarrow> Some (s\<lparr>tag_counter := tag_counts stats_data\<rparr>)
      | Doc (ProgressDoc _) \<Rightarrow> Some (s\<lparr>tag_counter := []\<rparr>)
      | Doc (TagsDoc _) \<Rightarrow> None)"

definition load_progress :: "pystr \<Rightarrow> state \<Rightarrow> state option" where
  "load_progress output_file s =
     (case docs (disk s) (progress_file_of output_file) of
        Absent \<Rightarrow> Some s
      | Corrupt \<Rightarrow> None
      | Doc (ProgressDoc progress_data) \<Rightarrow>
          Some (s\<lparr>processed_files := saved_files progress_data,
                  processed_articles := saved_articles progress_data\<rparr>)
      | Doc (StatsDoc _) \<Rightarrow> Some (s\<lparr>processed_files := {}, processed_articles := {}\<rparr>)
      | Doc (TagsDoc _) \<Rightarrow> None)"

text \<open>
  \<open>load_state\<close>: the first step that raises ends the function with \<open>False\<close>, and what was
  loaded before stays loaded.
\<close>

definition load_state :: "pystr \<Rightarrow> state \<Rightarrow> bool \<times> state" where
  "load_state output_file s =
     (case load_tag_pool output_file s of
        None \<Rightarrow> (False, s)
      | Some s1 \<Rightarrow>
          (case load_tag_counter output_file s1 of
             None \<Rightarrow> (False, s1)
           | Some s2 \<Rightarrow>
               (case load_progress output_file s2 of
                  None \<Rightarrow> (False, s2)
                | Some s3 \<Rightarrow> (True, s3))))"

section \<open>The orchestrator\<close>

text \<open>\<open>str(n)\<close> for a natural number: its decimal digits.\<close>

fun str_nat :: "nat \<Rightarrow> pystr" where
  "str_nat n = (if n < 10 then [48 + n] else str_nat (n div 10) @ [48 + n mod 10])"

declare str_nat.simps [simp del]

datatype reason = AlreadyProcessed | EmptyContent | NoTagsGenerated | NoValidArticles

datatype article_result =
  ArticleSkipped pystr
| ArticleFailed pystr reason
| ArticleSuccess pystr "pystr list" nat "(pystr \<times> json) list"

definition article_id_of :: "pystr \<Rightarrow> article \<Rightarrow> pystr" where
  "article_id_of file_name art = file_name @ [HASH] @ str_nat (index art)"

text \<open>
  \<open>process_single_article\<close>.  The result is the returned dictionary, or the exception
  that leaves the function, together with the state at that point.  In
  \<open>if output_file and incremental_save\<close> both \<open>None\<close> and the empty string count as
  false.
\<close>

definition process_single_article ::
  "env \<Rightarrow> article \<Rightarrow> pystr \<Rightarrow> pystr option \<Rightarrow> bool \<Rightarrow> state
     \<Rightarrow> (py_exception + article_result) \<times> state" where
  "process_single_article e art file_name output_file incremental_save s =
     (let article_id = article_id_of file_name art in
      if article_id \<in> processed_articles s then (Inr (ArticleSkipped article_id), s)
      else if content art = [] then (Inr (ArticleFailed article_id EmptyContent), s)
      else
        (case generate_tags e (content art) (requests s) of
           (Inl ex, reqs) \<Rightarrow> (Inl ex, s\<lparr>requests := reqs\<rparr>)
         | (Inr tags, reqs) \<Rightarrow>
             (if tags = [] then
                (Inr (ArticleFailed article_id NoTagsGenerated), s\<lparr>requests := reqs\<rparr>)
              else
                (let s1 = merge_tags tags (s\<lparr>requests := reqs\<rparr>);
                     s2 = (case output_file of
                             None \<Rightarrow> s1
                           | Some out \<Rightarrow>
                               (if out \<noteq> [] \<and> incremental_save
                                then save_state out (save_tags_incremental out s1)
                                else s1));
                     s3 = s2\<lparr>processed_articles := insert article_id (processed_articles s2)\<rparr>
                 in (Inr (ArticleSuccess article_id tags (length (content art)) (metadata art)),
                     s3)))))"

text \<open>The loop \<open>for article in articles\<close> of \<open>process_single_file\<close>.\<close>

fun process_articles ::
  "env \<Rightarrow> article list \<Rightarrow> pystr \<Rightarrow> pystr option \<Rightarrow> bool \<Rightarrow> state
     \<Rightarrow> (py_exception + article_result list) \<times> state" where
  "process_articles e [] file_name output_file incremental_save s = (Inr [], s)"
| "process_articles e (art # arts) file_name output_file incremental_save s =
     (case process_single_article e art file_name output_file incremental_save s of
        (Inl ex, s1) \<Rightarrow> (Inl ex, s1)
      | (Inr r, s1) \<Rightarrow>
          (case process_articles e arts file_name output_file incremental_save s1 of
             (Inl ex, s2) \<Rightarrow> (Inl ex, s2)
           | (Inr rs, s2) \<Rightarrow> (Inr (r # rs), s2)))"

fun is_success :: "article_result \<Rightarrow> bool" where
  "is_success (ArticleSuccess _ _ _ _) = True"
| "is_success _ = False"

fun is_failed :: "article_result \<Rightarrow> bool" where
  "is_failed (ArticleFailed _ _) = True"
| "is_failed _ = False"

fun is_skipped :: "article_result \<Rightarrow> bool" where
  "is_skipped (ArticleSkipped _) = True"
| "is_skipped _ = False"

text \<open>
  The results of \<open>process_single_file\<close>: skipped, failed with a reason, the summary of a
  JSON file (articles processed, succeeded, failed, skipped, and their results), or the
  success of a text file (its tags and content length).  \<open>FileError\<close> is the entry that
  \<open>process_files\<close> records when the task raised.
\<close>

datatype file_result =
  FileSkipped pystr
| FileFailed pystr reason
| FileArticles pystr nat nat nat nat "article_result list"
| FileSuccess pystr "pystr list" nat
| FileError py_exception

definition process_single_file ::
  "env \<Rightarrow> pystr \<Rightarrow> pystr option \<Rightarrow> pystr option \<Rightarrow> bool \<Rightarrow> state
     \<Rightarrow> (py_exception + file_result) \<times> state" where
  "process_single_file e file_path content_field output_file incremental_save s =
     (let file_name = basename file_path in
      if file_path \<in> processed_files s then (Inr (FileSkipped file_name), s)
      else if is_json_file file_path then
        (let articles = read_json_articles e file_path content_field in
         if articles = [] then (Inr (FileFailed file_name NoValidArticles), s)
         else
           (case process_articles e articles file_name output_file incremental_save s of
              (Inl ex, s1) \<Rightarrow> (Inl ex, s1)
            | (Inr results, s1) \<Rightarrow>
                (Inr (FileArticles file_name (length articles)
                        (length (filter is_success results))
                        (length (filter is_failed results))
                        (length (filter is_skipped results)) results),
                 s1\<lparr>processed_files := insert file_path (processed_files s1)\<rparr>)))
      else
        (let text = read_article e file_path content_field in
         if text = [] then (Inr (FileFailed file_name EmptyContent), s)
         else
           (case generate_tags e text (requests s) of
              (Inl ex, reqs) \<Rightarrow> (Inl ex, s\<lparr>requests := reqs\<rparr>)
            | (Inr tags, reqs) \<Rightarrow>
                (if tags = [] then
                   (Inr (FileFailed file_name NoTagsGenerated), s\<lparr>requests := reqs\<rparr>)
                 else
                   (Inr (FileSuccess file_name tags (length text)),
                    merge_tags tags (s\<lparr>requests := reqs\<rparr>))))))"

text \<open>
  \<open>process_files\<close> with one worker: the tasks run one after the other in the order of
  \<open>file_paths\<close>, and an exception of a task becomes a failed entry.  The source appends
  the results in the order in which \<open>as_completed\<close> hands them over, which is not fixed:
  the results are a multiset.
\<close>

fun process_files ::
  "env \<Rightarrow> pystr list \<Rightarrow> pystr option \<Rightarrow> pystr option \<Rightarrow> bool \<Rightarrow> state
     \<Rightarrow> file_result multiset \<times> state" where
  "process_files e [] content_field output_file incremental_save s = ({#}, s)"
| "process_files e (file_path # file_paths) content_field output_file incremental_save s =
     (case process_single_file e file_path content_field output_file incremental_save s of
        (r, s1) \<Rightarrow>
          (case process_files e file_paths content_field output_file incremental_save s1 of
             (rs, s2) \<Rightarrow>
               (add_mset (case r of Inl ex \<Rightarrow> FileError ex | Inr fr \<Rightarrow> fr) rs, s2)))"

text \<open>
  The part of \<open>main\<close> from the creation of the processor to the final save, for a
  non-empty list of discovered files: load the state, process the files, save the tag
  pool and the progress, all with \<open>output_file = "tags.json"\<close>.  It returns the results
  and the output directory it leaves behind.
\<close>

definition OUTPUT_FILE :: pystr where
  "OUTPUT_FILE = [116, 97, 103, 115, 46, 106, 115, 111, 110]"

definition run ::
  "env \<Rightarrow> pystr list \<Rightarrow> pystr \<Rightarrow> bool \<Rightarrow> outputs \<Rightarrow> file_result multiset \<times> outputs" where
  "run e article_files content_field incremental_save d =
     (let s0 = snd (load_state OUTPUT_FILE (new_processor d)) in
      (case process_files e article_files (Some content_field) (Some OUTPUT_FILE)
              incremental_save s0 of
         (results, s1) \<Rightarrow>
           (results, disk (save_state OUTPUT_FILE (save_tags OUTPUT_FILE s1)))))"

section \<open>Well-formed candidates\<close>

text \<open>
  A candidate that the parser leaves as it is: at least two characters, no comma and no
  \<open>#\<close>, and neither whitespace nor a character of \<open>PUNCT\<close> at either end.
\<close>

definition plain_tag :: "pystr \<Rightarrow> bool" where
  "plain_tag t \<longleftrightarrow>
     2 \<le> length t \<and> COMMA \<notin> set t \<and> HASH \<notin> set t \<and>
     \<not> py_isspace (hd t) \<and> \<not> py_isspace (last t) \<and>
     \<not> is_punct (hd t) \<and> \<not> is_punct (last t)"

text \<open>\<open>", ".join(cs)\<close>.\<close>

fun join_commas :: "pystr list \<Rightarrow> pystr" where
  "join_commas [] = []"
| "join_commas [c] = c"
| "join_commas (c # d # cs) = c @ [COMMA, 32] @ join_commas (d # cs)"


section \<open>The invariant of the aggregation store\<close>

text \<open>
  The distinct-tag set is the key set of the counter, and every count is at least one.
\<close>

definition store_invariant :: "state \<Rightarrow> bool" where
  "store_invariant s \<longleftrightarrow>
     tag_pool s = set (map fst (tag_counter s)) \<and> (\<forall>(t, n)\<in>set (tag_counter s). 1 \<le> n)"

section \<open>Example inputs\<close>

text \<open>
  The end-to-end example of the specification: a text file \<open>a.txt\<close> holding one sentence
  of fourteen characters, and a stubbed service that answers every request with two
  two-character tags separated by a comma and a space.  \<open>post.json\<close> holds the same
  sentence as the \<open>content\<close> field of a single JSON object.
\<close>

definition TAG1 :: pystr where "TAG1 = [22825, 27668]"
definition TAG2 :: pystr where "TAG2 = [36816, 21160]"
definition ANSWER :: pystr where "ANSWER = TAG1 @ [COMMA, 32] @ TAG2"
definition A_TXT :: pystr where "A_TXT = [97, 46, 116, 120, 116]"
definition POST_JSON :: pystr where "POST_JSON = [112, 111, 115, 116, 46, 106, 115, 111, 110]"
definition SENTENCE :: pystr where
  "SENTENCE = [20170, 22825, 22825, 27668, 24456, 22909, 65292, 36866, 21512, 20986, 21435,
               36816, 21160, 12290]"

definition stub_env :: env where
  "stub_env =
     \<lparr>service = (\<lambda>_. Choices [Some ANSWER]),
      files = (\<lambda>p. if p = A_TXT then Some (File SENTENCE None)
                    else if p = POST_JSON
                    then Some (File [] (Some (JObj [(hd FIELDS, JStr SENTENCE)])))
                    else None),
      str_of = (\<lambda>_. [])\<rparr>"

text \<open>The same files with a service that refuses every request.\<close>

definition failing_env :: env where
  "failing_env = stub_env\<lparr>service := (\<lambda>_. Raises RateLimitError)\<rparr>"

definition empty_disk :: outputs where
  "empty_disk = \<lparr>docs = (\<lambda>_. Absent), unwritable = {}\<rparr>"


text \<open>
  Output directories in which only one of the tag-pool and stats documents of
  \<open>tags.json\<close> exists, with two tags and with none.
\<close>

definition tags_only_disk :: outputs where
  "tags_only_disk = empty_disk\<lparr>docs := (\<lambda>_. Absent)(OUTPUT_FILE := Doc (TagsDoc [TAG1, TAG2]))\<rparr>"

definition stats_only_disk :: outputs where
  "stats_only_disk =
     empty_disk\<lparr>docs := (\<lambda>_. Absent)(stats_file_of OUTPUT_FILE :=
       Doc (StatsDoc \<lparr>total_tags = 2, total_occurrences = 2,
         tag_counts = [(TAG1, 1), (TAG2, 1)], top_tags = [(TAG1, 1), (TAG2, 1)]\<rparr>))\<rparr>"

definition empty_tags_disk :: outputs where
  "empty_tags_disk = empty_disk\<lparr>docs := (\<lambda>_. Absent)(OUTPUT_FILE := Doc (TagsDoc []))\<rparr>"

text \<open>
  The default of \<open>--content-field\<close>, and the output directories that one run and two
  runs over \<open>a.txt\<close> leave behind.
\<close>

definition CONTENT_FIELD :: pystr where "CONTENT_FIELD = [99, 111, 110, 116, 101, 110, 116]"

definition once_disk :: outputs where
  "once_disk =
     \<lparr>docs = (\<lambda>_. Absent)
        (OUTPUT_FILE := Doc (TagsDoc [TAG1, TAG2]),
         stats_file_of OUTPUT_FILE :=
           Doc (StatsDoc \<lparr>total_tags = 2, total_occurrences = 2,
             tag_counts = [(TAG1, 1), (TAG2, 1)], top_tags = [(TAG1, 1), (TAG2, 1)]\<rparr>),
         progress_file_of OUTPUT_FILE :=
           Doc (ProgressDoc \<lparr>saved_files = {}, saved_articles = {}\<rparr>)),
      unwritable = {}\<rparr>"

definition twice_disk :: outputs where
  "twice_disk =
     \<lparr>docs = (\<lambda>_. Absent)
        (OUTPUT_FILE := Doc (TagsDoc [TAG1, TAG2]),
         stats_file_of OUTPUT_FILE :=
           Doc (StatsDoc \<lparr>total_tags = 2, total_occurrences = 4,
             tag_counts = [(TAG1, 2), (TAG2, 2)], top_tags = [(TAG1, 2), (TAG2, 2)]\<rparr>),
         progress_file_of OUTPUT_FILE :=
           Doc (ProgressDoc \<lparr>saved_files = {}, saved_articles = {}\<rparr>)),
      unwritable = {}\<rparr>"


section \<open>Properties of the string functions\<close>

lemma length_strip_by: "length (strip_by P s) \<le> length s"
proof -
  have "length (dropWhile P (rev (dropWhile P s))) \<le> length (rev (dropWhile P s))"
    by (rule length_dropWhile_le)
  also have "\<dots> \<le> length s" by (simp add: length_dropWhile_le)
  finally show ?thesis by (simp add: strip_by_def)
qed

lemma strip_by_id:
  assumes "s \<noteq> []" "\<not> P (hd s)" "\<not> P (last s)"
  shows "strip_by P s = s"
proof -
  from assms have "dropWhile P s = s" by (cases s) auto
  moreover from assms have "dropWhile P (rev s) = rev s"
    by (cases "rev s") (auto simp: hd_rev)
  ultimately show ?thesis by (simp add: strip_by_def)
qed

lemma py_split_no_sep: "sep \<notin> set s \<Longrightarrow> py_split sep s = [s]"
  by (induction s) auto

lemma py_split_append:
  "sep \<notin> set x \<Longrightarrow> py_split sep (x @ sep # y) = x # py_split sep y"
  by (induction x) auto



lemma dropWhile_no_hash: "HASH \<notin> set b \<Longrightarrow> dropWhile (\<lambda>x. x \<noteq> HASH) b = []"
  by (induction b) auto







lemma strip_by_all: "\<forall>w\<in>set ws. P w \<Longrightarrow> strip_by P ws = []"
proof -
  assume "\<forall>w\<in>set ws. P w"
  then have d: "dropWhile P ws = []" by (induction ws) auto
  show ?thesis unfolding strip_by_def d by simp
qed

lemma strip_by_lead:
  assumes "\<forall>w\<in>set ws. P w" "s \<noteq> []" "\<not> P (hd s)" "\<not> P (last s)"
  shows "strip_by P (ws @ s) = s"
proof -
  from assms have "dropWhile P (ws @ s) = s"
    by (cases s) (auto simp: dropWhile_append)
  moreover from assms have "dropWhile P (rev s) = rev s"
    by (cases "rev s") (auto simp: hd_rev)
  ultimately show ?thesis by (simp add: strip_by_def)
qed

lemma space_not_sep: "py_isspace w \<Longrightarrow> w \<noteq> COMMA \<and> w \<noteq> HASH"
  by (auto simp: py_isspace_def COMMA_def HASH_def)

lemma part_blank: "\<forall>w\<in>set ws. py_isspace w \<Longrightarrow> raw_tags_of_part ws = []"
  by (simp add: raw_tags_of_part_def py_strip_def strip_by_all)

lemma part_plain:
  assumes "\<forall>w\<in>set ws. py_isspace w" "plain_tag t"
  shows "raw_tags_of_part (ws @ t) = [t]"
proof -
  from assms(2) have ne: "t \<noteq> []" by (auto simp: plain_tag_def)
  with assms have "py_strip (ws @ t) = t"
    unfolding py_strip_def by (intro strip_by_lead) (auto simp: plain_tag_def)
  with ne assms(2) show ?thesis
    by (simp add: raw_tags_of_part_def plain_tag_def)
qed

lemma clean_plain: "plain_tag t \<Longrightarrow> clean_tag t = [t]"
proof -
  assume p: "plain_tag t"
  then have ne: "t \<noteq> []" by (auto simp: plain_tag_def)
  from p ne have 1: "py_strip t = t"
    unfolding py_strip_def by (intro strip_by_id) (auto simp: plain_tag_def)
  from p ne have 2: "strip_by is_punct t = t"
    by (intro strip_by_id) (auto simp: plain_tag_def)
  from p ne 1 2 show ?thesis by (simp add: clean_tag_def plain_tag_def)
qed

lemma filter_plain: "\<forall>c\<in>set cs. plain_tag c \<Longrightarrow> filter_tags cs = cs"
  by (induction cs) (auto simp: filter_tags_def clean_plain)

lemma raw_tags_join:
  "\<forall>c\<in>set cs. plain_tag c \<Longrightarrow> \<forall>w\<in>set ws. py_isspace w \<Longrightarrow>
   raw_tags_of (ws @ join_commas cs) = cs"
proof (induction cs arbitrary: ws rule: join_commas.induct)
  case 1
  then have "COMMA \<notin> set ws" using space_not_sep by blast
  with 1 show ?case by (simp add: raw_tags_of_def py_split_no_sep part_blank)
next
  case (2 c)
  then have "COMMA \<notin> set (ws @ c)" using space_not_sep by (auto simp: plain_tag_def)
  with 2 show ?case by (simp add: raw_tags_of_def py_split_no_sep part_plain)
next
  case (3 c d cs)
  then have nc: "COMMA \<notin> set (ws @ c)" using space_not_sep by (auto simp: plain_tag_def)
  have sp: "\<forall>w\<in>set [32]. py_isspace w" by (simp add: py_isspace_def)
  have "ws @ join_commas (c # d # cs) = (ws @ c) @ COMMA # ([32] @ join_commas (d # cs))"
    by simp
  then have "py_split COMMA (ws @ join_commas (c # d # cs)) =
        (ws @ c) # py_split COMMA ([32] @ join_commas (d # cs))"
    using py_split_append [OF nc] by simp
  moreover have "raw_tags_of ([32] @ join_commas (d # cs)) = d # cs"
    using 3 sp by (intro "3.IH") auto
  moreover have "raw_tags_of_part (ws @ c) = [c]" using 3 by (intro part_plain) auto
  ultimately show ?case by (simp add: raw_tags_of_def)
qed

lemma parse_tags_join:
  "\<forall>c\<in>set cs. plain_tag c \<Longrightarrow> parse_tags (join_commas cs) = take 5 cs"
  using raw_tags_join [of cs "[]"] by (simp add: parse_tags_def filter_plain)

lemma clean_tag_single_test:
  "clean_tag tag = (let t = strip_by is_punct (py_strip tag) in if 2 \<le> length t then [t] else [])"
proof (cases "2 \<le> length (py_strip tag)")
  case True
  then show ?thesis by (auto simp: clean_tag_def Let_def)
next
  case False
  moreover have "length (strip_by is_punct (py_strip tag)) \<le> length (py_strip tag)"
    by (rule length_strip_by)
  ultimately show ?thesis by (auto simp: clean_tag_def Let_def)
qed

subsection \<open>Segments with spans between \<open>#\<close>\<close>







lemma hd_remainder:
  "t \<noteq> [] \<Longrightarrow> hd (t @ concat (map snd sts)) = hd t"
  by simp






section \<open>Claims about the response parser\<close>




text \<open>
  C7, as the code has it.  A candidate is trimmed of whitespace, then stripped at both ends
  of the characters of a fixed set, and kept exactly when at least two characters remain
  (the length test before the stripping never decides).  The set is: the full-width comma,
  full stop, exclamation mark, question mark, semicolon and colon, the ASCII double quote,
  and the full-width round, lenticular and double angle brackets.  It holds no half-width
  comma, full stop or bracket.
\<close>

theorem C7_cleaning_rule:
  "clean_tag tag =
     (let t = strip_by is_punct (py_strip tag) in if 2 \<le> length t then [t] else []) \<and>
   (is_punct c \<longleftrightarrow>
      c \<in> {65292, 12290, 65281, 65311, 65307, 65306, 34,
           65288, 65289, 12304, 12305, 12298, 12299})"
proof
  show "clean_tag tag =
     (let t = strip_by is_punct (py_strip tag) in if 2 \<le> length t then [t] else [])"
    by (rule clean_tag_single_test)
  show "is_punct c \<longleftrightarrow>
      c \<in> {65292, 12290, 65281, 65311, 65307, 65306, 34,
           65288, 65289, 12304, 12305, 12298, 12299}"
    by (simp add: is_punct_def PUNCT_def)
qed

text \<open>
  C7 as stated fails: a candidate ending in a half-width full stop (\<open>ab.\<close>) and one in
  half-width brackets (\<open>(ab)\<close>) are kept with that punctuation.
\<close>

theorem C7_half_width_counterexample:
  "clean_tag [97, 98, 46] = [[97, 98, 46]] \<and>
   clean_tag [40, 97, 98, 41] = [[40, 97, 98, 41]]"
  by (simp add: clean_tag_def py_strip_def strip_by_def py_isspace_def is_punct_def PUNCT_def)

text \<open>
  C9.  For every response text the parsed list has at most five entries and is the list of
  the first five valid candidates in parse order, nothing being removed as a duplicate; and
  a response made of well-formed candidates joined by commas gives exactly its first five
  candidates, repeated ones included.
\<close>

theorem C9_first_five:
  "length (parse_tags t) \<le> 5 \<and>
   parse_tags t = take 5 (concat (map clean_tag (raw_tags_of t))) \<and>
   ((\<forall>c\<in>set cs. plain_tag c) \<longrightarrow> parse_tags (join_commas cs) = take 5 cs)"
  by (simp add: parse_tags_join) (simp add: parse_tags_def filter_tags_def)

theorem C9_first_five_witness:
  "plain_tag [97, 97] \<and> plain_tag [98, 98] \<and> plain_tag [99, 99] \<and> plain_tag [100, 100] \<and>
   plain_tag [101, 101] \<and> plain_tag [102, 102] \<and>
   parse_tags [97, 97, 44, 32, 98, 98, 44, 32, 97, 97, 44, 32, 99, 99, 44, 32, 100, 100,
               44, 32, 101, 101, 44, 32, 102, 102] =
     [[97, 97], [98, 98], [97, 97], [99, 99], [100, 100]]"
proof -
  have p: "plain_tag [97, 97]" "plain_tag [98, 98]" "plain_tag [99, 99]"
    "plain_tag [100, 100]" "plain_tag [101, 101]" "plain_tag [102, 102]"
    by (simp_all add: plain_tag_def COMMA_def HASH_def py_isspace_def is_punct_def PUNCT_def)
  then have "\<forall>c\<in>set [[97, 97], [98, 98], [97, 97], [99, 99], [100, 100], [101, 101], [102, 102]].
      plain_tag c"
    by simp
  with C9_first_five [of _ "[[97, 97], [98, 98], [97, 97], [99, 99], [100, 100], [101, 101], [102, 102]]"]
  have "parse_tags (join_commas [[97, 97], [98, 98], [97, 97], [99, 99], [100, 100], [101, 101], [102, 102]])
      = take 5 [[97, 97], [98, 98], [97, 97], [99, 99], [100, 100], [101, 101], [102, 102]]"
    by blast
  with p show ?thesis by (simp add: COMMA_def)
qed

section \<open>Properties of the generator and of the state functions\<close>

lemma generate_tags_returns: "\<exists>tags. fst (generate_tags e c reqs) = Inr tags"
  by (simp add: generate_tags_def Let_def split: sum.split)

lemma generate_tags_cases:
  obtains tags reqs' where "generate_tags e c reqs = (Inr tags, reqs')"
  using generate_tags_returns [of e c reqs] by (cases "generate_tags e c reqs") auto

lemma merge_tags_fields [simp]:
  "processed_articles (merge_tags tags s) = processed_articles s"
  "processed_files (merge_tags tags s) = processed_files s"
  "disk (merge_tags tags s) = disk s"
  "requests (merge_tags tags s) = requests s"
  by (simp_all add: merge_tags_def)

lemma write_doc_fields [simp]:
  "processed_articles (write_doc p doc s) = processed_articles s"
  "processed_files (write_doc p doc s) = processed_files s"
  "tag_pool (write_doc p doc s) = tag_pool s"
  "tag_counter (write_doc p doc s) = tag_counter s"
  "requests (write_doc p doc s) = requests s"
  "unwritable (disk (write_doc p doc s)) = unwritable (disk s)"
  "docs (disk (write_doc p doc s)) = (docs (disk s))(p := Doc doc)"
  by (simp_all add: write_doc_def)

lemma save_tags_incremental_fields [simp]:
  "processed_articles (save_tags_incremental out s) = processed_articles s"
  "processed_files (save_tags_incremental out s) = processed_files s"
  "tag_pool (save_tags_incremental out s) = tag_pool s"
  "tag_counter (save_tags_incremental out s) = tag_counter s"
  "requests (save_tags_incremental out s) = requests s"
  "unwritable (disk (save_tags_incremental out s)) = unwritable (disk s)"
  by (simp_all add: save_tags_incremental_def Let_def)

lemma save_tags_fields [simp]:
  "processed_articles (save_tags out s) = processed_articles s"
  "processed_files (save_tags out s) = processed_files s"
  "tag_pool (save_tags out s) = tag_pool s"
  "tag_counter (save_tags out s) = tag_counter s"
  "requests (save_tags out s) = requests s"
  "unwritable (disk (save_tags out s)) = unwritable (disk s)"
  by (simp_all add: save_tags_def Let_def)

lemma save_state_fields [simp]:
  "processed_articles (save_state out s) = processed_articles s"
  "processed_files (save_state out s) = processed_files s"
  "tag_pool (save_state out s) = tag_pool s"
  "tag_counter (save_state out s) = tag_counter s"
  "requests (save_state out s) = requests s"
  "unwritable (disk (save_state out s)) = unwritable (disk s)"
  by (simp_all add: save_state_def Let_def)




subsection \<open>The example inputs\<close>

lemma stub_tags: "parse_tags (py_strip ANSWER) = [TAG1, TAG2]"
  by (simp add: parse_tags_def filter_tags_def raw_tags_of_def raw_tags_of_part_def
      clean_tag_def py_strip_def strip_by_def py_isspace_def is_punct_def PUNCT_def
      COMMA_def HASH_def TAG1_def TAG2_def ANSWER_def)

lemma stub_generate:
  "c \<noteq> [] \<Longrightarrow> generate_tags stub_env c reqs = (Inr [TAG1, TAG2], reqs @ [user_message c])"
  by (simp add: generate_tags_def stub_env_def read_response_def stub_tags Let_def)


lemma tags_distinct: "TAG1 \<noteq> TAG2"
  by (simp add: TAG1_def TAG2_def)

lemma tags_le: "TAG1 \<le> TAG2" "\<not> TAG2 \<le> TAG1"
  by (simp_all add: TAG1_def TAG2_def)

lemma sorted_two: "sorted_list_of_set {TAG1, TAG2} = [TAG1, TAG2]"
  using tags_distinct tags_le by simp


lemma a_txt_facts:
  "\<not> is_json_file A_TXT" "basename A_TXT = A_TXT" "read_article stub_env A_TXT cf = SENTENCE"
  "SENTENCE \<noteq> []" "length SENTENCE = 14"
proof -
  show 1: "\<not> is_json_file A_TXT"
    by (simp add: is_json_file_def path_suffix_def path_name_def A_TXT_def SLASH_def DOT_def
        DOT_JSON_def ascii_lower_def Let_def)
  show "basename A_TXT = A_TXT" by (simp add: basename_def A_TXT_def SLASH_def)
  have "py_strip SENTENCE = SENTENCE"
    by (simp add: py_strip_def strip_by_def SENTENCE_def py_isspace_def)
  with 1 show "read_article stub_env A_TXT cf = SENTENCE"
    by (simp add: read_article_def stub_env_def)
  show "SENTENCE \<noteq> []" "length SENTENCE = 14" by (simp_all add: SENTENCE_def)
qed

lemma psf_a_txt:
  "A_TXT \<notin> processed_files s \<Longrightarrow>
   process_single_file stub_env A_TXT cf out inc s =
     (Inr (FileSuccess A_TXT [TAG1, TAG2] 14),
      merge_tags [TAG1, TAG2] (s\<lparr>requests := requests s @ [user_message SENTENCE]\<rparr>))"
  by (simp add: process_single_file_def a_txt_facts stub_generate Let_def)

lemma tags_json_names:
  "stats_file_of OUTPUT_FILE =
     [116, 97, 103, 115, 95, 115, 116, 97, 116, 115, 46, 106, 115, 111, 110]"
  "progress_file_of OUTPUT_FILE =
     [116, 97, 103, 115, 95, 112, 114, 111, 103, 114, 101, 115, 115, 46, 106, 115, 111, 110]"
  by (simp_all add: stats_file_of_def progress_file_of_def OUTPUT_FILE_def DOT_JSON_def
      STATS_SUFFIX_def PROGRESS_SUFFIX_def)

lemma tags_json_distinct:
  "OUTPUT_FILE \<noteq> stats_file_of OUTPUT_FILE"
  "OUTPUT_FILE \<noteq> progress_file_of OUTPUT_FILE"
  "stats_file_of OUTPUT_FILE \<noteq> progress_file_of OUTPUT_FILE"
  "stats_file_of OUTPUT_FILE \<noteq> OUTPUT_FILE"
  "progress_file_of OUTPUT_FILE \<noteq> OUTPUT_FILE"
  "progress_file_of OUTPUT_FILE \<noteq> stats_file_of OUTPUT_FILE"
  "OUTPUT_FILE \<noteq> []"
  by (simp_all add: tags_json_names) (simp_all add: OUTPUT_FILE_def)


section \<open>Claims about the tag generator\<close>

text \<open>
  C8.  \<open>generate_tags\<close> always returns a list and never an exception; on the empty text it
  returns the empty list and sends no request (the request log is unchanged); and when
  the service call raises, whatever the exception, it returns the empty list.
\<close>

theorem C8_generate_tags_never_raises:
  "(\<exists>tags. fst (generate_tags e c reqs) = Inr tags) \<and>
   generate_tags e [] reqs = (Inr [], reqs) \<and>
   (service e (user_message c) = Raises ex \<longrightarrow> fst (generate_tags e c reqs) = Inr [])"
  by (simp add: generate_tags_def Let_def read_response_def split: sum.split)

theorem C8_generate_tags_never_raises_witness:
  "service failing_env (user_message SENTENCE) = Raises RateLimitError \<and>
   fst (generate_tags failing_env SENTENCE []) = Inr []"
  using C8_generate_tags_never_raises [of failing_env SENTENCE "[]" RateLimitError]
  by (simp add: failing_env_def)

section \<open>Claims about the progress record\<close>







section \<open>Properties of the counter and of the store\<close>

lemma keys_counter_incr: "fst ` set (counter_incr t c) = insert t (fst ` set c)"
proof (induction t c rule: counter_incr.induct)
  case (1 t)
  then show ?case by simp
next
  case (2 t k n c)
  show ?case
  proof (cases "k = t")
    case True
    then show ?thesis by auto
  next
    case False
    with 2 show ?thesis by auto
  qed
qed

lemma pos_counter_incr:
  "\<forall>(k, n)\<in>set c. 1 \<le> n \<Longrightarrow> \<forall>(k, n)\<in>set (counter_incr t c). 1 \<le> n"
  by (induction c) (auto split: if_splits)

lemma keys_counter_update:
  "fst ` set (counter_update c tags) = fst ` set c \<union> set tags"
  unfolding counter_update_def
proof (induction tags arbitrary: c)
  case Nil
  then show ?case by simp
next
  case (Cons t tags)
  have "fst ` set (foldl (\<lambda>c t. counter_incr t c) (counter_incr t c) tags) =
      fst ` set (counter_incr t c) \<union> set tags"
    by (rule Cons.IH)
  then show ?case by (simp add: keys_counter_incr)
qed

lemma pos_counter_update:
  "\<forall>(k, n)\<in>set c. 1 \<le> n \<Longrightarrow> \<forall>(k, n)\<in>set (counter_update c tags). 1 \<le> n"
  unfolding counter_update_def
proof (induction tags arbitrary: c)
  case Nil
  then show ?case by simp
next
  case (Cons t tags)
  from Cons.prems have "\<forall>(k, n)\<in>set (counter_incr t c). 1 \<le> n" by (rule pos_counter_incr)
  then show ?case using Cons.IH by simp
qed

lemma store_invariant_cong:
  "tag_pool s' = tag_pool s \<Longrightarrow> tag_counter s' = tag_counter s \<Longrightarrow>
   store_invariant s' = store_invariant s"
  by (simp add: store_invariant_def)

lemma store_invariant_new: "store_invariant (new_processor d)"
  by (simp add: store_invariant_def new_processor_def)

lemma store_invariant_merge: "store_invariant s \<Longrightarrow> store_invariant (merge_tags tags s)"
  using pos_counter_update [of "tag_counter s" tags]
  by (simp add: store_invariant_def merge_tags_def keys_counter_update)

lemma set_most_common: "set (most_common c) = set c"
  by (simp add: most_common_def)

lemma store_invariant_psa:
  assumes "store_invariant s"
  shows "store_invariant (snd (process_single_article e art fn out inc s))"
proof -
  obtain res reqs where g: "generate_tags e (content art) (requests s) = (Inr res, reqs)"
    by (rule generate_tags_cases)
  have m: "store_invariant (merge_tags res (s\<lparr>requests := reqs\<rparr>))"
    using assms by (intro store_invariant_merge) (simp add: store_invariant_def)
  have r: "store_invariant (s\<lparr>requests := reqs\<rparr>)"
    using assms by (simp add: store_invariant_def)
  have sv: "store_invariant
      (save_state p (save_tags_incremental p (merge_tags res (s\<lparr>requests := reqs\<rparr>))))" for p
    using m by (simp add: store_invariant_def)
  from assms m r sv g show ?thesis
    by (simp add: process_single_article_def Let_def split: option.split)
       (simp add: store_invariant_def)
qed

lemma store_invariant_articles:
  "store_invariant s \<Longrightarrow> store_invariant (snd (process_articles e arts fn out inc s))"
proof (induction arts arbitrary: s)
  case Nil
  then show ?case by simp
next
  case (Cons art arts)
  from Cons.prems have 1: "store_invariant (snd (process_single_article e art fn out inc s))"
    by (rule store_invariant_psa)
  show ?case
  proof (cases "process_single_article e art fn out inc s")
    case (Pair r s1)
    with 1 have s1: "store_invariant s1" by simp
    from Cons.IH [OF s1] Pair s1 show ?thesis
      by (cases r; cases "process_articles e arts fn out inc s1") (auto split: sum.splits)
  qed
qed

lemma store_invariant_psf:
  assumes "store_invariant s"
  shows "store_invariant (snd (process_single_file e p cf out inc s))"
proof -
  obtain res reqs where
    g: "generate_tags e (read_article e p cf) (requests s) = (Inr res, reqs)"
    by (rule generate_tags_cases)
  have m: "store_invariant (merge_tags res (s\<lparr>requests := reqs\<rparr>))"
    using assms by (intro store_invariant_merge) (simp add: store_invariant_def)
  have r: "store_invariant (s\<lparr>requests := reqs\<rparr>)"
    using assms by (simp add: store_invariant_def)
  have a: "store_invariant (snd (process_articles e (read_json_articles e p cf) (basename p) out inc s))"
    using assms by (rule store_invariant_articles)
  show ?thesis
  proof (cases "process_articles e (read_json_articles e p cf) (basename p) out inc s")
    case (Pair rs s1)
    with a have "store_invariant s1" by simp
    then have "store_invariant (s1\<lparr>processed_files := insert p (processed_files s1)\<rparr>)"
      by (simp add: store_invariant_def)
    with assms m r g Pair \<open>store_invariant s1\<close> show ?thesis
      by (cases rs) (simp_all add: process_single_file_def Let_def)
  qed
qed

lemma store_invariant_files:
  "store_invariant s \<Longrightarrow> store_invariant (snd (process_files e ps cf out inc s))"
proof (induction ps arbitrary: s)
  case Nil
  then show ?case by simp
next
  case (Cons p ps)
  from Cons.prems have 1: "store_invariant (snd (process_single_file e p cf out inc s))"
    by (rule store_invariant_psf)
  from Cons.IH [OF 1] show ?case
    by (cases "process_single_file e p cf out inc s";
        cases "process_files e ps cf out inc (snd (process_single_file e p cf out inc s))")
       simp
qed

text \<open>What \<open>load_state\<close> leaves in the tag pool and in the counter.\<close>

lemma load_state_tag_pool:
  "tag_pool (snd (load_state out s)) =
     (case docs (disk s) out of
        Doc (TagsDoc l) \<Rightarrow> set l
      | Doc (StatsDoc _) \<Rightarrow> set STATS_KEYS
      | Doc (ProgressDoc _) \<Rightarrow> set PROGRESS_KEYS
      | _ \<Rightarrow> tag_pool s)"
  by (simp add: load_state_def load_tag_pool_def load_tag_counter_def load_progress_def
      split: slot.split document.split)

lemma load_state_tag_counter:
  "tag_counter (snd (load_state out s)) =
     (case docs (disk s) out of
        Corrupt \<Rightarrow> tag_counter s
      | _ \<Rightarrow>
         (case docs (disk s) (stats_file_of out) of
            Doc (StatsDoc st) \<Rightarrow> tag_counts st
          | Doc (ProgressDoc _) \<Rightarrow> []
          | _ \<Rightarrow> tag_counter s))"
  by (simp add: load_state_def load_tag_pool_def load_tag_counter_def load_progress_def
      split: slot.split document.split)

lemma store_invariant_reload:
  assumes "store_invariant s" and "out \<noteq> stats_file_of out"
    and "out \<notin> unwritable (disk s)" and "stats_file_of out \<notin> unwritable (disk s)"
  shows "store_invariant (snd (load_state out (new_processor (disk (save_tags out s)))))"
proof -
  from assms(1) have fin: "finite (tag_pool s)" by (simp add: store_invariant_def)
  from assms fin show ?thesis
    by (simp add: store_invariant_def load_state_tag_pool load_state_tag_counter
        new_processor_def save_tags_def Let_def stats_of_def set_most_common)
qed

lemma store_invariant_reload_incremental:
  assumes "store_invariant s" and "out \<noteq> stats_file_of out"
    and "out \<notin> unwritable (disk s)" and "stats_file_of out \<notin> unwritable (disk s)"
  shows "store_invariant
           (snd (load_state out (new_processor (disk (save_tags_incremental out s)))))"
proof -
  from assms(1) have fin: "finite (tag_pool s)" by (simp add: store_invariant_def)
  from assms fin show ?thesis
    by (simp add: store_invariant_def load_state_tag_pool load_state_tag_counter
        new_processor_def save_tags_incremental_def Let_def stats_of_def set_most_common)
qed

lemma store_invariant_fresh:
  "docs d out = Absent \<Longrightarrow> docs d (stats_file_of out) = Absent \<Longrightarrow>
   store_invariant (snd (load_state out (new_processor d)))"
  by (simp add: store_invariant_def load_state_tag_pool load_state_tag_counter new_processor_def)

lemma store_invariant_lone_tags:
  "docs d out = Doc (TagsDoc l) \<Longrightarrow> docs d (stats_file_of out) = Absent \<Longrightarrow>
   store_invariant (snd (load_state out (new_processor d))) \<longleftrightarrow> l = []"
  by (simp add: store_invariant_def load_state_tag_pool load_state_tag_counter new_processor_def)

lemma store_invariant_lone_stats:
  "docs d out = Absent \<Longrightarrow> docs d (stats_file_of out) = Doc (StatsDoc st) \<Longrightarrow>
   store_invariant (snd (load_state out (new_processor d))) \<longleftrightarrow> tag_counts st = []"
  by (auto simp: store_invariant_def load_state_tag_pool load_state_tag_counter new_processor_def)

section \<open>Claims about the aggregation store\<close>

text \<open>
  C6, as the code has it.  The invariant holds for a new processor; every merge keeps it,
  and so does a whole pass over a list of files.  \<open>load_state\<close> gives a state that
  satisfies it when neither the tag-pool nor the stats document exists, and when both were
  written by one \<open>save_tags\<close> or \<open>save_tags_incremental\<close> from a state that satisfies it
  (to two different, writable files).  When only the tag-pool document exists, the loaded
  state satisfies it exactly when that document lists no tag; when only the stats
  document exists, exactly when its tag counts are empty.
\<close>

theorem C6_store_invariant:
  "store_invariant (new_processor d) \<and>
   (store_invariant s \<longrightarrow> store_invariant (merge_tags tags s)) \<and>
   (store_invariant s \<longrightarrow> store_invariant (snd (process_files e ps cf outf inc s))) \<and>
   (docs d out = Absent \<and> docs d (stats_file_of out) = Absent \<longrightarrow>
      store_invariant (snd (load_state out (new_processor d)))) \<and>
   (store_invariant s \<and> out \<noteq> stats_file_of out \<and>
    out \<notin> unwritable (disk s) \<and> stats_file_of out \<notin> unwritable (disk s) \<longrightarrow>
      store_invariant (snd (load_state out (new_processor (disk (save_tags out s))))) \<and>
      store_invariant
        (snd (load_state out (new_processor (disk (save_tags_incremental out s)))))) \<and>
   (docs d out = Doc (TagsDoc l) \<and> docs d (stats_file_of out) = Absent \<longrightarrow>
      (store_invariant (snd (load_state out (new_processor d))) \<longleftrightarrow> l = [])) \<and>
   (docs d out = Absent \<and> docs d (stats_file_of out) = Doc (StatsDoc st) \<longrightarrow>
      (store_invariant (snd (load_state out (new_processor d))) \<longleftrightarrow> tag_counts st = []))"
  using store_invariant_new store_invariant_merge store_invariant_files store_invariant_fresh
    store_invariant_reload store_invariant_reload_incremental
    store_invariant_lone_tags [of d out l] store_invariant_lone_stats [of d out st]
  by blast

theorem C6_store_invariant_witness:
  "store_invariant (new_processor empty_disk) \<and>
   store_invariant (merge_tags [TAG1, TAG2] (new_processor empty_disk)) \<and>
   store_invariant (snd (process_files stub_env [A_TXT] None None False (new_processor empty_disk))) \<and>
   docs empty_disk OUTPUT_FILE = Absent \<and> docs empty_disk (stats_file_of OUTPUT_FILE) = Absent \<and>
   store_invariant (snd (load_state OUTPUT_FILE (new_processor empty_disk))) \<and>
   OUTPUT_FILE \<noteq> stats_file_of OUTPUT_FILE \<and>
   unwritable (disk (merge_tags [TAG1, TAG2] (new_processor empty_disk))) = {} \<and>
   store_invariant (snd (load_state OUTPUT_FILE (new_processor
      (disk (save_tags OUTPUT_FILE (merge_tags [TAG1, TAG2] (new_processor empty_disk))))))) \<and>
   docs empty_tags_disk OUTPUT_FILE = Doc (TagsDoc []) \<and>
   docs empty_tags_disk (stats_file_of OUTPUT_FILE) = Absent \<and>
   store_invariant (snd (load_state OUTPUT_FILE (new_processor empty_tags_disk)))"
proof -
  let ?n = "new_processor empty_disk"
  let ?m = "merge_tags [TAG1, TAG2] ?n"
  note d = tags_json_distinct
  have a: "docs empty_disk OUTPUT_FILE = Absent" "docs empty_disk (stats_file_of OUTPUT_FILE) = Absent"
    by (simp_all add: empty_disk_def)
  have u: "unwritable (disk ?m) = {}" by (simp add: empty_disk_def new_processor_def)
  then have w: "OUTPUT_FILE \<notin> unwritable (disk ?m)"
    "stats_file_of OUTPUT_FILE \<notin> unwritable (disk ?m)"
    by simp_all
  have b: "docs empty_tags_disk OUTPUT_FILE = Doc (TagsDoc [])"
    "docs empty_tags_disk (stats_file_of OUTPUT_FILE) = Absent"
    using d by (simp_all add: empty_tags_disk_def)
  note t1 = C6_store_invariant [of empty_disk ?n "[TAG1, TAG2]" stub_env "[A_TXT]" None None
      False OUTPUT_FILE]
  from t1 have i: "store_invariant ?n" by blast
  with t1 have im: "store_invariant ?m" by blast
  note t2 = C6_store_invariant [of empty_tags_disk ?m _ _ _ _ _ _ OUTPUT_FILE "[]"]
  from t2 im d(1) w
  have r: "store_invariant (snd (load_state OUTPUT_FILE (new_processor
      (disk (save_tags OUTPUT_FILE ?m)))))"
    by blast
  from t2 b have l: "store_invariant (snd (load_state OUTPUT_FILE (new_processor empty_tags_disk)))"
    by blast
  from t1 i a have p: "store_invariant (snd (process_files stub_env [A_TXT] None None False ?n))"
    and f: "store_invariant (snd (load_state OUTPUT_FILE ?n))"
    by blast+
  from i im p a f d(1) u r b l show ?thesis by (intro conjI)
qed

text \<open>
  C6 as stated fails: when only the tag-pool document exists, with two tags,
  \<open>load_state\<close> succeeds with a tag pool of two tags and an empty counter; when only the
  stats document exists, with two counts, it succeeds with an empty tag pool and a counter
  of two keys.
\<close>

theorem C6_single_document_counterexample:
  "docs tags_only_disk OUTPUT_FILE = Doc (TagsDoc [TAG1, TAG2]) \<and>
   docs tags_only_disk (stats_file_of OUTPUT_FILE) = Absent \<and>
   fst (load_state OUTPUT_FILE (new_processor tags_only_disk)) \<and>
   \<not> store_invariant (snd (load_state OUTPUT_FILE (new_processor tags_only_disk))) \<and>
   docs stats_only_disk OUTPUT_FILE = Absent \<and>
   fst (load_state OUTPUT_FILE (new_processor stats_only_disk)) \<and>
   \<not> store_invariant (snd (load_state OUTPUT_FILE (new_processor stats_only_disk)))"
  using tags_json_distinct
  by (simp add: tags_only_disk_def stats_only_disk_def empty_disk_def load_state_def
      load_tag_pool_def load_tag_counter_def load_progress_def
      new_processor_def store_invariant_def)

section \<open>Claims about whole files and runs\<close>

lemma load_empty_disk:
  "load_state OUTPUT_FILE (new_processor empty_disk) = (True, new_processor empty_disk)"
  by (simp add: load_state_def load_tag_pool_def load_tag_counter_def load_progress_def
      new_processor_def empty_disk_def)

lemma load_once_disk:
  "load_state OUTPUT_FILE (new_processor once_disk) =
     (True, (new_processor once_disk)
        \<lparr>tag_pool := {TAG1, TAG2}, tag_counter := [(TAG1, 1), (TAG2, 1)]\<rparr>)"
  using tags_json_distinct
  by (simp add: load_state_def load_tag_pool_def load_tag_counter_def load_progress_def
      new_processor_def once_disk_def)

lemma run_a_txt_first:
  "run stub_env [A_TXT] CONTENT_FIELD False empty_disk =
     ({#FileSuccess A_TXT [TAG1, TAG2] 14#}, once_disk)"
proof -
  have n: "A_TXT \<notin> processed_files (new_processor empty_disk)"
    by (simp add: new_processor_def)
  show ?thesis
    unfolding run_def load_empty_disk
    using tags_distinct tags_le
    by (simp add: psf_a_txt [OF n] Let_def save_tags_def save_state_def stats_of_def
        merge_tags_def counter_update_def most_common_def sorted_two)
       (auto simp: new_processor_def empty_disk_def once_disk_def write_doc_def fun_eq_iff)
qed

lemma run_a_txt_second:
  "run stub_env [A_TXT] CONTENT_FIELD False once_disk =
     ({#FileSuccess A_TXT [TAG1, TAG2] 14#}, twice_disk)"
proof -
  let ?s = "(new_processor once_disk)
        \<lparr>tag_pool := {TAG1, TAG2}, tag_counter := [(TAG1, 1), (TAG2, 1)]\<rparr>"
  have n: "A_TXT \<notin> processed_files ?s" by (simp add: new_processor_def)
  show ?thesis
    unfolding run_def load_once_disk
    using tags_distinct tags_le tags_json_distinct
    by (simp add: psf_a_txt [OF n] Let_def save_tags_def save_state_def stats_of_def
        merge_tags_def counter_update_def most_common_def sorted_two)
       (auto simp: new_processor_def once_disk_def twice_disk_def write_doc_def fun_eq_iff)
qed

text \<open>
  C1, at the failing input.  The corpus is the single text file \<open>a.txt\<close>; the service
  gives the same two tags each time.  The first run from an empty output directory reports
  a success and leaves every tag counted once.  The second run, started from what the
  first left behind, reports a success again, not a skip, and leaves every tag counted
  twice: the stats documents differ.
\<close>

theorem C1_text_file_counted_twice:
  "run stub_env [A_TXT] CONTENT_FIELD False empty_disk =
     ({#FileSuccess A_TXT [TAG1, TAG2] 14#}, once_disk) \<and>
   run stub_env [A_TXT] CONTENT_FIELD False once_disk =
     ({#FileSuccess A_TXT [TAG1, TAG2] 14#}, twice_disk) \<and>
   docs twice_disk (stats_file_of OUTPUT_FILE) \<noteq> docs once_disk (stats_file_of OUTPUT_FILE)"
  using run_a_txt_first run_a_txt_second tags_json_distinct
  by (simp add: once_disk_def twice_disk_def)

lemma text_file_never_marked:
  assumes "\<not> is_json_file p"
  shows "processed_files (snd (process_single_file e p cf out inc s)) = processed_files s \<and>
         processed_articles (snd (process_single_file e p cf out inc s)) = processed_articles s \<and>
         disk (snd (process_single_file e p cf out inc s)) = disk s"
proof -
  obtain res reqs where
    g: "generate_tags e (read_article e p cf) (requests s) = (Inr res, reqs)"
    by (rule generate_tags_cases)
  from assms g show ?thesis by (simp add: process_single_file_def Let_def)
qed

text \<open>
  The JSON branch, by contrast, records every file that yields an article, and a recorded
  file is skipped.
\<close>

lemma psa_returns: "\<exists>r. fst (process_single_article e art fn out inc s) = Inr r"
proof -
  obtain res reqs where g: "generate_tags e (content art) (requests s) = (Inr res, reqs)"
    by (rule generate_tags_cases)
  then show ?thesis by (simp add: process_single_article_def Let_def)
qed

lemma process_articles_returns: "\<exists>rs. fst (process_articles e arts fn out inc s) = Inr rs"
proof (induction arts arbitrary: s)
  case Nil
  then show ?case by simp
next
  case (Cons art arts)
  obtain r s1 where 1: "process_single_article e art fn out inc s = (Inr r, s1)"
    using psa_returns [of e art fn out inc s]
    by (cases "process_single_article e art fn out inc s") auto
  obtain rs s2 where 2: "process_articles e arts fn out inc s1 = (Inr rs, s2)"
    using Cons.IH [of s1] by (cases "process_articles e arts fn out inc s1") auto
  from 1 2 show ?case by simp
qed

lemma json_file_marked:
  assumes "is_json_file p" and "read_json_articles e p cf \<noteq> []"
  shows "p \<in> processed_files (snd (process_single_file e p cf out inc s))"
proof -
  obtain rs s1 where
    "process_articles e (read_json_articles e p cf) (basename p) out inc s = (Inr rs, s1)"
    using process_articles_returns [of e "read_json_articles e p cf" "basename p" out inc s]
    by (cases "process_articles e (read_json_articles e p cf) (basename p) out inc s") auto
  with assms show ?thesis by (simp add: process_single_file_def Let_def)
qed

lemma marked_file_skipped:
  "p \<in> processed_files s \<Longrightarrow>
   process_single_file e p cf out inc s = (Inr (FileSkipped (basename p)), s)"
  by (simp add: process_single_file_def Let_def)

lemma post_json_facts:
  "is_json_file POST_JSON" "basename POST_JSON = POST_JSON"
  "files stub_env POST_JSON = Some (File [] (Some (JObj [(hd FIELDS, JStr SENTENCE)])))"
  "read_article stub_env POST_JSON None = SENTENCE"
proof -
  show 1: "is_json_file POST_JSON"
    by (simp add: is_json_file_def path_suffix_def path_name_def POST_JSON_def SLASH_def DOT_def
        DOT_JSON_def ascii_lower_def Let_def)
  show "basename POST_JSON = POST_JSON" by (simp add: basename_def POST_JSON_def SLASH_def)
  show 2: "files stub_env POST_JSON = Some (File [] (Some (JObj [(hd FIELDS, JStr SENTENCE)])))"
    by (simp add: stub_env_def A_TXT_def POST_JSON_def)
  have "py_strip SENTENCE = SENTENCE"
    by (simp add: py_strip_def strip_by_def SENTENCE_def py_isspace_def)
  with 1 2 show "read_article stub_env POST_JSON None = SENTENCE"
    by (simp add: read_article_def find_content_def FIELDS_def py_str_def)
qed

text \<open>
  C5, at the failing inputs.  A file with the suffix \<open>.json\<close> whose top-level value is
  a single object gives no article, and the file fails with \<open>no_valid_articles\<close> with the
  state unchanged, so nothing is sent to the service; whether a content field matches
  plays no role.  (In the witness, \<open>read_article\<close> on the same file does resolve the
  field, but the orchestrator never calls it for a \<open>.json\<close> file.)
\<close>

theorem C5_single_object_json_fails:
  assumes "is_json_file p" and "files e p = Some (File raw (Some (JObj obj)))"
    and "p \<notin> processed_files s"
  shows "read_json_articles e p cf = [] \<and>
         process_single_file e p cf out inc s =
           (Inr (FileFailed (basename p) NoValidArticles), s)"
  using assms by (simp add: process_single_file_def read_json_articles_def Let_def)

theorem C5_single_object_json_fails_witness:
  "is_json_file POST_JSON \<and>
   files stub_env POST_JSON = Some (File [] (Some (JObj [(hd FIELDS, JStr SENTENCE)]))) \<and>
   POST_JSON \<notin> processed_files (new_processor empty_disk) \<and>
   read_json_articles stub_env POST_JSON None = [] \<and>
   process_single_file stub_env POST_JSON None None False (new_processor empty_disk) =
     (Inr (FileFailed POST_JSON NoValidArticles), new_processor empty_disk) \<and>
   read_article stub_env POST_JSON None = SENTENCE"
proof -
  have n: "POST_JSON \<notin> processed_files (new_processor empty_disk)"
    by (simp add: new_processor_def)
  from C5_single_object_json_fails [OF post_json_facts(1) post_json_facts(3) n, of None None False]
    post_json_facts n
  show ?thesis by simp
qed

end

